theory Spec2Isabelle
  imports Complex_Main "HOL-Library.Multiset"
begin

section \<open>Treemap layout of \<open>tree_maps.py\<close>: a shallow embedding\<close>

text \<open>
  The development follows \<open>src/tree_maps.py\<close>. Python integers are \<open>int\<close>, true
  division \<open>/\<close> is exact division on \<open>rat\<close> (the rounding of binary floating point is
  not part of the model), \<open>int(...)\<close> truncates towards zero, every \<open>raise\<close> is a
  value \<open>Inl e\<close> of a sum type, dictionaries whose order matters are association lists
  and the others are maps.
\<close>

subsection \<open>Errors and Python primitives\<close>

datatype error =
    ValueError | ZeroDivisionError | IndexError | KeyError | TypeError | AttributeError

type_synonym 'a result = "error + 'a"

definition bind_result :: "'a result \<Rightarrow> ('a \<Rightarrow> 'b result) \<Rightarrow> 'b result" where
  "bind_result m f = (case m of Inl e \<Rightarrow> Inl e | Inr x \<Rightarrow> f x)"

text \<open>\<open>int(x)\<close> on a number: truncation towards zero.\<close>

definition py_int :: "rat \<Rightarrow> int" where
  "py_int x = (if 0 \<le> x then \<lfloor>x\<rfloor> else \<lceil>x\<rceil>)"

text \<open>\<open>a / b\<close> on integers: true division, \<open>ZeroDivisionError\<close> when \<open>b = 0\<close>.\<close>

definition truediv :: "rat \<Rightarrow> rat \<Rightarrow> rat result" where
  "truediv a b = (if b = 0 then Inl ZeroDivisionError else Inr (a / b))"

text \<open>\<open>a // b\<close> on integers: floor division (\<open>div\<close> on \<open>int\<close> rounds down as Python does).\<close>

definition floordiv :: "int \<Rightarrow> int \<Rightarrow> int result" where
  "floordiv a b = (if b = 0 then Inl ZeroDivisionError else Inr (a div b))"

text \<open>\<open>range(start, stop, step)\<close> as the list of its values.\<close>

function range_up :: "int \<Rightarrow> int \<Rightarrow> int \<Rightarrow> int list" where
  "range_up i stop step =
     (if 0 < step \<and> i < stop then i # range_up (i + step) stop step else [])"
  by pat_completeness auto
termination
  by (relation "measure (\<lambda>(i, stop, step). nat (stop - i))") auto

declare range_up.simps [simp del]

function range_down :: "int \<Rightarrow> int \<Rightarrow> int \<Rightarrow> int list" where
  "range_down i stop step =
     (if step < 0 \<and> stop < i then i # range_down (i + step) stop step else [])"
  by pat_completeness auto
termination
  by (relation "measure (\<lambda>(i, stop, step). nat (i - stop))") auto

declare range_down.simps [simp del]

definition py_range :: "int \<Rightarrow> int \<Rightarrow> int \<Rightarrow> int list result" where
  "py_range start stop step =
     (if step = 0 then Inl ValueError
      else if 0 < step then Inr (range_up start stop step)
      else Inr (range_down start stop step))"

text \<open>\<open>xs[i:j]\<close>: negative bounds count from the end, both are clamped to the list.\<close>

definition slice_bound :: "int \<Rightarrow> int \<Rightarrow> nat" where
  "slice_bound n i = nat (max 0 (min n (if i < 0 then i + n else i)))"

definition py_slice :: "'a list \<Rightarrow> int \<Rightarrow> int \<Rightarrow> 'a list" where
  "py_slice xs i j =
     (let n = int (length xs); lo = slice_bound n i; hi = slice_bound n j
      in take (hi - lo) (drop lo xs))"

subsection \<open>\<open>VisConfig\<close>: the dataclass and its fields\<close>

text \<open>
  The fields of the dataclass, with \<open>None\<close> as \<open>None\<close>. \<open>legend_margins\<close> carries no
  annotation in the source, so it is an attribute of the class and not a field of the
  instances; it is not part of the record.
\<close>

record visconfig =
  width :: int
  height :: int
  font :: string
  base_font_size :: int
  min_font_size :: int
  text_color :: string
  text_level :: string
  line_width :: int
  line_color :: string
  proportion_cutoff :: "rat option"
  n_categories :: "int option"
  top_color :: string
  palette :: "string list option"
  styles :: "string list option"
  legend :: bool
  legend_position :: string
  legend_font_size :: "int option"
  legend_color_block_size :: "int option"
  legend_rowcol_size :: "int option"
  legend_rowcol_length :: int
  legend_rowcol_margin :: int
  label_generator :: "string \<Rightarrow> string"

text \<open>
  The field values the generated \<open>__init__\<close> stores when only \<open>width\<close> and \<open>height\<close> are
  given: the defaults of the class body, before \<open>__post_init__\<close> runs.
\<close>

definition VisConfig_defaults :: "int \<Rightarrow> int \<Rightarrow> visconfig" where
  "VisConfig_defaults w h =
     \<lparr> width = w, height = h, font = ''NotoSans-Regular.ttf'', base_font_size = 20,
       min_font_size = 15, text_color = ''black'', text_level = ''all'', line_width = 10,
       line_color = ''black'', proportion_cutoff = None, n_categories = None,
       top_color = ''white'', palette = None, styles = None, legend = True,
       legend_position = ''bottom'', legend_font_size = None,
       legend_color_block_size = None, legend_rowcol_size = None,
       legend_rowcol_length = 5, legend_rowcol_margin = 0, label_generator = (\<lambda>x. x) \<rparr>"

subsection \<open>\<open>Legend\<close>: chunking the entries into strips\<close>

text \<open>
  \<open>color_dict\<close> is a dictionary read in insertion order: an association list from the
  category names to their colours.
\<close>

record legend_obj =
  color_dict :: "(string \<times> string) list"
  category_boxes :: "(string \<times> int \<times> int) list"
  wrapped_texts :: "(string \<times> string list) list"

definition legend_n_categories :: "legend_obj \<Rightarrow> int" where
  "legend_n_categories L = int (length (color_dict L))"

definition n_row_cols :: "legend_obj \<Rightarrow> visconfig \<Rightarrow> int result" where
  "n_row_cols L configs =
     (case truediv (of_int (legend_n_categories L)) (of_int (legend_rowcol_length configs)) of
        Inl e \<Rightarrow> Inl e
      | Inr q \<Rightarrow> Inr \<lceil>q\<rceil>)"

definition categories_by_rowcol :: "legend_obj \<Rightarrow> visconfig \<Rightarrow> string list list result" where
  "categories_by_rowcol L configs =
     (let categories = map fst (color_dict L) in
      case n_row_cols L configs of
        Inl e \<Rightarrow> Inl e
      | Inr n_lists \<Rightarrow>
         (case py_range 0 (legend_n_categories L) (legend_rowcol_length configs) of
            Inl e \<Rightarrow> Inl e
          | Inr is \<Rightarrow>
              Inr (map (\<lambda>i. py_slice categories i (i + legend_rowcol_length configs)) is)))"

subsection \<open>\<open>StringHelper.largest_fitting_font_size\<close>\<close>

text \<open>
  \<open>font_func\<close> is the measurement: \<open>font_func size text\<close> is
  \<open>font_func(size).getsize(text)\<close>, the pair of the measured width and height. The
  \<open>while\<close> loop of the source has no bound of its own, so it is a partial function: the
  value \<open>None\<close> stands for a loop that never ends. It returns the \<open>font_size\<close> at which
  the loop is left.
\<close>

type_synonym font_func = "int \<Rightarrow> string \<Rightarrow> int \<times> int"

definition text_width :: "font_func \<Rightarrow> string \<Rightarrow> int \<Rightarrow> int" where
  "text_width font_func text font_size = fst (font_func font_size text)"

definition text_height :: "font_func \<Rightarrow> string \<Rightarrow> int \<Rightarrow> int" where
  "text_height font_func text font_size = snd (font_func font_size text)"

partial_function (option) font_size_loop ::
  "font_func \<Rightarrow> string \<Rightarrow> int \<Rightarrow> int \<Rightarrow> int option \<Rightarrow> int \<Rightarrow> int option" where
  "font_size_loop font_func text max_width max_height max_font_size font_size =
     (if text_width font_func text font_size < max_width
         \<and> text_height font_func text font_size < max_height
      then (case max_font_size of
              None \<Rightarrow> font_size_loop font_func text max_width max_height max_font_size (font_size + 1)
            | Some m \<Rightarrow>
                if font_size > m then Some font_size
                else font_size_loop font_func text max_width max_height max_font_size (font_size + 1))
      else Some font_size)"

definition largest_fitting_font_size ::
  "string \<Rightarrow> font_func \<Rightarrow> int \<Rightarrow> int \<Rightarrow> int option \<Rightarrow> int \<Rightarrow> int option" where
  "largest_fitting_font_size text font_func max_width max_height max_font_size min_font_size' =
     (case font_size_loop font_func text max_width max_height max_font_size 1 of
        None \<Rightarrow> None
      | Some font_size \<Rightarrow>
          if font_size - 1 \<ge> min_font_size' then Some (font_size - 1) else Some 0)"

text \<open>The loop condition: the text at this size stays under the box in both dimensions.\<close>

definition fits :: "font_func \<Rightarrow> string \<Rightarrow> int \<Rightarrow> int \<Rightarrow> int \<Rightarrow> bool" where
  "fits font_func text max_width max_height font_size \<longleftrightarrow>
     text_width font_func text font_size < max_width
     \<and> text_height font_func text font_size < max_height"

subsection \<open>\<open>Category\<close>: the tree of weighted categories\<close>

text \<open>
  A \<open>DataFrame\<close> is the list of its rows and a row gives the value of each column;
  \<open>data.shape[0]\<close> is the number of rows, \<open>data[c].sum()\<close> the sum of column \<open>c\<close>, and
  \<open>pd.concat\<close> appends the frames. The back reference \<open>supcategory\<close> is not a field of the
  datatype: the functions that read it (\<open>proportion_in_supcategory\<close>) take the parent as an
  argument, which \<open>add_subcategories\<close> makes the node the children hang under. \<open>grids\<close> is
  the state the layout functions pass along. \<open>group_by\<close> is \<open>None\<close> until
  \<open>generate_subcategories\<close> sets it.
\<close>

type_synonym row = "string \<Rightarrow> int"

datatype category = Category
  (name: string)
  (value_name: "string option")
  (cat_size: int)
  (subcategories: "category list")
  (data: "row list")
  (is_root: bool)
  (is_others: bool)
  (group_by: "string list option")

text \<open>\<open>Category.__init__\<close>: the size is computed from the data, once.\<close>

definition data_size :: "string option \<Rightarrow> row list \<Rightarrow> int" where
  "data_size vname dat =
     (if vname = None \<or> vname = Some [] then int (length dat)
      else sum_list (map (\<lambda>r. r (the vname)) dat))"

definition Category_init ::
  "string \<Rightarrow> string option \<Rightarrow> category list \<Rightarrow> row list \<Rightarrow> bool \<Rightarrow> bool \<Rightarrow> category" where
  "Category_init nm vname subs dat isroot isothers =
     Category nm (if vname = None \<or> vname = Some [] then None else vname)
       (data_size vname dat) subs dat isroot isothers None"

text \<open>\<open>sorted(..., key=size, reverse=True)\<close>: a stable sort, largest first.\<close>

definition subcategories_in_descending_size :: "category \<Rightarrow> category list" where
  "subcategories_in_descending_size self = sort_key (\<lambda>c. - cat_size c) (subcategories self)"

definition proportion_in_supcategory :: "category \<Rightarrow> category \<Rightarrow> rat result" where
  "proportion_in_supcategory supcategory self =
     truediv (of_int (cat_size self)) (of_int (cat_size supcategory))"

subsection \<open>The grid: \<open>compute_simple_column_grid\<close>, \<open>compute_simple_row_grid\<close>, \<open>compute_grid\<close>\<close>

record grid =
  ul :: "int \<times> int"
  grid_width :: int
  grid_height :: int

type_synonym grids = "string \<rightharpoonup> grid"

fun map_result :: "('a \<Rightarrow> 'b result) \<Rightarrow> 'a list \<Rightarrow> 'b list result" where
  "map_result f [] = Inr []"
| "map_result f (x # xs) =
     (case f x of
        Inl e \<Rightarrow> Inl e
      | Inr y \<Rightarrow> (case map_result f xs of Inl e \<Rightarrow> Inl e | Inr ys \<Rightarrow> Inr (y # ys)))"

text \<open>
  \<open>categories.sort(key = lambda cat: cat.proportion_in_supcategory, reverse = True)\<close>:
  the key is computed for every element (and may raise), then the list is sorted_cats, stably,
  largest key first.
\<close>

definition sort_by_proportion :: "category \<Rightarrow> category list \<Rightarrow> category list result" where
  "sort_by_proportion supcategory categories =
     (case map_result (proportion_in_supcategory supcategory) categories of
        Inl e \<Rightarrow> Inl e
      | Inr keys \<Rightarrow>
          Inr (sort_key (\<lambda>c. - (rat_of_int (cat_size c) / rat_of_int (cat_size supcategory)))
                 categories))"

fun column_loop ::
  "int \<Rightarrow> int \<Rightarrow> int \<Rightarrow> category list \<Rightarrow> int \<times> int \<Rightarrow> grids \<Rightarrow> grids result" where
  "column_loop width' height' total_column_size [] current_ul grids = Inr grids"
| "column_loop width' height' total_column_size (cat # cats) current_ul grids =
     (case truediv (of_int (cat_size cat)) (of_int total_column_size) of
        Inl e \<Rightarrow> Inl e
      | Inr p \<Rightarrow>
          (let height_used = py_int (of_int height' * p);
               current_grid = \<lparr> ul = current_ul, grid_width = width', grid_height = height_used \<rparr>
           in column_loop width' height' total_column_size cats
                (fst current_ul, snd current_ul + height_used)
                (grids(name cat \<mapsto> current_grid))))"

definition compute_simple_column_grid ::
  "category \<Rightarrow> int \<Rightarrow> int \<Rightarrow> category list \<Rightarrow> int \<times> int \<Rightarrow> grids \<Rightarrow> grids result" where
  "compute_simple_column_grid self width' height' categories ul' grids =
     (case sort_by_proportion self categories of
        Inl e \<Rightarrow> Inl e
      | Inr cats \<Rightarrow>
          column_loop width' height' (sum_list (map cat_size cats)) cats ul' grids)"

fun row_loop ::
  "int \<Rightarrow> int \<Rightarrow> int \<Rightarrow> category list \<Rightarrow> int \<times> int \<Rightarrow> grids \<Rightarrow> grids result" where
  "row_loop width' height' total_column_size [] current_ul grids = Inr grids"
| "row_loop width' height' total_column_size (cat # cats) current_ul grids =
     (case truediv (of_int (cat_size cat)) (of_int total_column_size) of
        Inl e \<Rightarrow> Inl e
      | Inr p \<Rightarrow>
          (let width_used = py_int (of_int width' * p);
               current_grid = \<lparr> ul = current_ul, grid_width = width_used, grid_height = height' \<rparr>
           in row_loop width' height' total_column_size cats
                (fst current_ul + width_used, snd current_ul)
                (grids(name cat \<mapsto> current_grid))))"

definition compute_simple_row_grid ::
  "category \<Rightarrow> int \<Rightarrow> int \<Rightarrow> category list \<Rightarrow> int \<times> int \<Rightarrow> grids \<Rightarrow> grids result" where
  "compute_simple_row_grid self width' height' categories ul' grids =
     (case sort_by_proportion self categories of
        Inl e \<Rightarrow> Inl e
      | Inr cats \<Rightarrow>
          row_loop width' height' (sum_list (map cat_size cats)) cats ul' grids)"

text \<open>
  The \<open>while\<close> loop of \<open>compute_grid\<close> that grows the group. The source writes it twice,
  once per branch, with \<open>width\<close> and \<open>height\<close> exchanged: \<open>main\<close> is the extent that is
  split (\<open>width\<close> when \<open>width > height\<close>, else \<open>height\<close>) and \<open>cross\<close> the other one;
  \<open>required\<close> is \<open>current_width_required\<close> (\<open>current_height_required\<close>) and \<open>first\<close> is
  \<open>first_category_height\<close> (\<open>first_category_width\<close>). It returns the index reached, the
  group and the extent required.
\<close>

function grow_group ::
  "category list \<Rightarrow> int \<Rightarrow> int \<Rightarrow> int \<Rightarrow> nat \<Rightarrow> category list \<Rightarrow> int \<Rightarrow> rat
     \<Rightarrow> (nat \<times> category list \<times> int) result" where
  "grow_group sorted_cats main cross total_size_remaining current_category_id gridded_categories
       required first =
     (if rat_of_int required < first \<and> int current_category_id < int (length sorted_cats) - 1 then
        (let current_category_id' = current_category_id + 1;
             gridded_categories' = gridded_categories @ [sorted_cats ! current_category_id']
         in case truediv (of_int (main * sum_list (map cat_size gridded_categories')))
                   (of_int total_size_remaining) of
              Inl e \<Rightarrow> Inl e
            | Inr q \<Rightarrow>
               (case truediv (of_int (cross * cat_size (hd gridded_categories')))
                       (of_int (sum_list (map cat_size gridded_categories'))) of
                  Inl e \<Rightarrow> Inl e
                | Inr first' \<Rightarrow>
                    grow_group sorted_cats main cross total_size_remaining current_category_id'
                      gridded_categories' (py_int q) first'))
      else Inr (current_category_id, gridded_categories, required))"
  by pat_completeness auto
termination
  by (relation "measure (\<lambda>(sorted_cats, main, cross, tot, cid, gridded, required, first).
        length sorted_cats - cid)") auto

declare grow_group.simps [simp del]

lemma grow_group_index_mono:
  "grow_group sorted_cats main cross tot cid gridded required first = Inr (cid', gridded', required')
     \<Longrightarrow> cid \<le> cid'"
proof (induction sorted_cats main cross tot cid gridded required first rule: grow_group.induct)
  case (1 sorted_cats main cross tot cid gridded required first)
  show ?case
  proof (cases "rat_of_int required < first \<and> int cid < int (length sorted_cats) - 1")
    case False
    with 1(2) show ?thesis by (simp add: grow_group.simps[of sorted_cats main cross tot cid])
  next
    case True
    from 1(2) True obtain q first' where
      q: "truediv (of_int (main * sum_list (map cat_size (gridded @ [sorted_cats ! (cid + 1)]))))
            (of_int tot) = Inr q"
      and f: "truediv (of_int (cross * cat_size (hd (gridded @ [sorted_cats ! (cid + 1)]))))
            (of_int (sum_list (map cat_size (gridded @ [sorted_cats ! (cid + 1)])))) = Inr first'"
      and r: "grow_group sorted_cats main cross tot (cid + 1) (gridded @ [sorted_cats ! (cid + 1)])
            (py_int q) first' = Inr (cid', gridded', required')"
      by (simp add: grow_group.simps[of sorted_cats main cross tot cid] Let_def
          split: sum.splits)
    have "cid + 1 \<le> cid'"
      using 1(1)[OF True refl refl q f r] .
    then show ?thesis by simp
  qed
qed

function compute_grid ::
  "category \<Rightarrow> int \<Rightarrow> int \<Rightarrow> int \<times> int \<Rightarrow> nat \<Rightarrow> grids \<Rightarrow> grids result" where
  "compute_grid self width' height' ul' current_category_id grids =
     (let sorted_cats = subcategories_in_descending_size self in
      if length sorted_cats \<le> current_category_id then Inl IndexError
      else
        let current_category = sorted_cats ! current_category_id in
        if int current_category_id = int (length (subcategories self)) - 1 then
          Inr (grids(name current_category \<mapsto>
                 \<lparr> ul = ul', grid_width = width', grid_height = height' \<rparr>))
        else
          let total_size_remaining = sum_list (map cat_size (drop current_category_id sorted_cats)) in
          if width' > height' then
            (case truediv (of_int (width' * cat_size current_category))
                    (of_int total_size_remaining) of
               Inl e \<Rightarrow> Inl e
             | Inr q \<Rightarrow>
                (case grow_group sorted_cats width' height' total_size_remaining current_category_id
                        [current_category] (py_int q) (of_int height') of
                   Inl e \<Rightarrow> Inl e
                 | Inr (current_category_id', gridded_categories, current_width_required) \<Rightarrow>
                    (case compute_simple_column_grid self current_width_required height'
                            gridded_categories ul' grids of
                       Inl e \<Rightarrow> Inl e
                     | Inr grids' \<Rightarrow>
                        if int current_category_id' \<noteq> int (length (subcategories self)) - 1 then
                          compute_grid self (width' - current_width_required) height'
                            (fst ul' + current_width_required, snd ul')
                            (current_category_id' + 1) grids'
                        else Inr grids')))
          else
            (case truediv (of_int (height' * cat_size current_category))
                    (of_int total_size_remaining) of
               Inl e \<Rightarrow> Inl e
             | Inr q \<Rightarrow>
                (case grow_group sorted_cats height' width' total_size_remaining current_category_id
                        [current_category] (py_int q) (of_int width') of
                   Inl e \<Rightarrow> Inl e
                 | Inr (current_category_id', gridded_categories, current_height_required) \<Rightarrow>
                    (case compute_simple_column_grid self width' current_height_required
                            gridded_categories ul' grids of
                       Inl e \<Rightarrow> Inl e
                     | Inr grids' \<Rightarrow>
                        if int current_category_id' \<noteq> int (length (subcategories self)) - 1 then
                          compute_grid self width' (height' - current_height_required)
                            (fst ul', current_height_required + snd ul')
                            (current_category_id' + 1) grids'
                        else Inr grids'))))"
  by pat_completeness auto
termination
proof (relation "measure (\<lambda>(self, w, h, u, cid, g).
        length (subcategories_in_descending_size self) - cid)", goal_cases)
  case 1
  then show ?case by simp
next
  case (2 self w h u cid g sorted_cats cc tot q r cid' rest gridded req grids')
  then have "cid \<le> cid'" using grow_group_index_mono by metis
  with 2 show ?case by simp
next
  case (3 self w h u cid g sorted_cats cc tot q r cid' rest gridded req grids')
  then have "cid \<le> cid'" using grow_group_index_mono by metis
  with 3 show ?case by simp
qed

declare compute_grid.simps [simp del]

subsection \<open>Rectangles: the vocabulary of the layout properties\<close>


definition area :: "grid \<Rightarrow> int" where
  "area r = grid_width r * grid_height r"


definition inside :: "grid \<Rightarrow> grid \<Rightarrow> bool" where
  "inside r R \<longleftrightarrow>
     0 \<le> grid_width r \<and> 0 \<le> grid_height r
     \<and> fst (ul R) \<le> fst (ul r) \<and> fst (ul r) + grid_width r \<le> fst (ul R) + grid_width R
     \<and> snd (ul R) \<le> snd (ul r) \<and> snd (ul r) + grid_height r \<le> snd (ul R) + grid_height R"

text \<open>\<open>r\<close> ends before \<open>s\<close> starts, horizontally or vertically.\<close>

definition before :: "grid \<Rightarrow> grid \<Rightarrow> bool" where
  "before r s \<longleftrightarrow>
     fst (ul r) + grid_width r \<le> fst (ul s) \<or> snd (ul r) + grid_height r \<le> snd (ul s)"




text \<open>
  \<open>tiling R rs\<close>: the rectangles \<open>rs\<close> lie in \<open>R\<close>, each ends before the later ones start,
  and their areas add up to the area of \<open>R\<close> less at most one row of \<open>R\<close> for each
  rectangle but one.
\<close>

definition tiling :: "grid \<Rightarrow> grid list \<Rightarrow> bool" where
  "tiling R rs \<longleftrightarrow>
     (\<forall>r \<in> set rs. inside r R)
     \<and> sorted_wrt before rs
     \<and> sum_list (map area rs) \<le> area R
     \<and> area R - sum_list (map area rs) \<le> (int (length rs) - 1) * grid_width R"

text \<open>The members \<open>i, \<dots>, j\<close> of a list.\<close>

definition seg :: "'a list \<Rightarrow> nat \<Rightarrow> nat \<Rightarrow> 'a list" where
  "seg xs i j = take (Suc j - i) (drop i xs)"


subsection \<open>Example trees\<close>


definition root_of :: "category list \<Rightarrow> category" where
  "root_of cs = Category_init ''root'' None cs (concat (map data cs)) True False"

subsection \<open>Colours, styles and the construction of a \<open>VisConfig\<close>\<close>

text \<open>
  What the libraries outside the repository compute is a parameter of the model:
  \<open>pastel n\<close> is \<open>sns.color_palette("pastel", n).as_hex()\<close>, \<open>plural\<close> is
  \<open>inflect.engine().plural\<close>, \<open>others_hex\<close> the hex code of white at the average luminance
  of a palette and \<open>scale_saturation\<close> the hex code of a colour with its saturation
  scaled. Colours are the strings the source passes around; parsing one never fails in
  the model.
\<close>

record externals =
  pastel :: "int \<Rightarrow> string list"
  plural :: "string \<Rightarrow> string"
  others_hex :: "string list \<Rightarrow> string"
  scale_saturation :: "string \<Rightarrow> rat \<Rightarrow> string"

text \<open>\<open>VisConfig.__post_init__\<close>, on the fields the generated \<open>__init__\<close> stored.\<close>

definition VisConfig_post_init :: "externals \<Rightarrow> visconfig \<Rightarrow> visconfig result" where
  "VisConfig_post_init ext self =
     (case (case palette self of
              None \<Rightarrow>
                (case n_categories self of
                   Some n \<Rightarrow> Inr (self\<lparr> palette := Some (pastel ext n) \<rparr>)
                 | None \<Rightarrow> Inl ValueError)
            | Some pal \<Rightarrow>
                (case n_categories self of
                   None \<Rightarrow> Inr (self\<lparr> n_categories := Some (int (length pal)) \<rparr>)
                 | Some n \<Rightarrow> if n \<noteq> int (length pal) then Inl ValueError else Inr self)) of
        Inl e \<Rightarrow> Inl e
      | Inr self1 \<Rightarrow>
          (let self2 = (if styles self1 = None
                        then self1\<lparr> styles := Some [''palette'', ''gradient'', ''uniform''] \<rparr>
                        else self1)
           in if legend_position self2 \<notin> set [''left'', ''right'', ''top'', ''bottom'']
              then Inl ValueError
              else
                (let self3 = (if legend_rowcol_size self2 = None
                              then self2\<lparr> legend_rowcol_size := Some ((width self2 + height self2) div 8) \<rparr>
                              else self2);
                     self4 = (if legend_color_block_size self3 = None
                              then self3\<lparr> legend_color_block_size :=
                                           Some (min (width self3) (height self3) div 50) \<rparr>
                              else self3);
                     self5 = (if legend_font_size self4 = None
                              then self4\<lparr> legend_font_size := Some (base_font_size self4) \<rparr>
                              else self4)
                 in Inr self5)))"

record color_style =
  style :: string
  base_color :: string
  others_color :: "string option"

text \<open>\<open>ColorStyle.__post_init__\<close>, with the default \<open>others_color = None\<close>.\<close>

definition ColorStyle_post_init :: "string \<Rightarrow> string \<Rightarrow> color_style result" where
  "ColorStyle_post_init st base =
     (if st \<notin> set [''palette'', ''gradient'', ''uniform''] then Inl ValueError
      else Inr \<lparr> style = st, base_color = (if base = [] then ''white'' else base),
                 others_color = None \<rparr>)"

text \<open>The property \<open>VisConfig.top_level_color_style\<close>: a \<open>ColorStyle\<close> is built at each read.\<close>

definition top_level_color_style :: "visconfig \<Rightarrow> color_style result" where
  "top_level_color_style self =
     (case styles self of
        None \<Rightarrow> Inl TypeError
      | Some [] \<Rightarrow> Inl IndexError
      | Some (s # ss) \<Rightarrow> ColorStyle_post_init s (top_color self))"

definition get_others_color :: "externals \<Rightarrow> color_style \<Rightarrow> string list \<Rightarrow> string result" where
  "get_others_color ext cs pal =
     (case others_color cs of
        None \<Rightarrow> if pal = [] then Inl ZeroDivisionError else Inr (others_hex ext pal)
      | Some c \<Rightarrow> Inr c)"

text \<open>
  \<open>relative_proportion_in_supcategory\<close>: the size over the size of the largest sibling,
  the first of the parent's children in descending size.
\<close>

definition relative_proportion_in_supcategory :: "category \<Rightarrow> category \<Rightarrow> rat result" where
  "relative_proportion_in_supcategory supcategory self =
     (case subcategories_in_descending_size supcategory of
        [] \<Rightarrow> Inl IndexError
      | largest_sibling # rest \<Rightarrow>
          truediv (of_int (cat_size self)) (of_int (cat_size largest_sibling)))"

text \<open>
  \<open>ColorStyle.get_color(category=..., i=..., palette=...)\<close>; \<open>supcategory\<close> is the parent of
  \<open>category\<close>. A style outside the three falls through the \<open>match\<close> and gives \<open>None\<close>,
  here the empty string.
\<close>

definition get_color ::
  "externals \<Rightarrow> color_style \<Rightarrow> category \<Rightarrow> category \<Rightarrow> nat \<Rightarrow> string list option
     \<Rightarrow> string result" where
  "get_color ext cs supcategory cat i pal =
     (if style cs = ''palette'' then
        (if is_others cat then
           (case pal of None \<Rightarrow> Inl TypeError | Some p \<Rightarrow> get_others_color ext cs p)
         else
           (case pal of
              None \<Rightarrow> Inl TypeError
            | Some p \<Rightarrow> if i < length p then Inr (p ! i) else Inl IndexError))
      else if style cs = ''gradient'' then
        (case relative_proportion_in_supcategory supcategory cat of
           Inl e \<Rightarrow> Inl e
         | Inr q \<Rightarrow> Inr (scale_saturation ext (base_color cs) q))
      else if style cs = ''uniform'' then Inr (base_color cs)
      else Inr [])"

subsection \<open>\<open>visualize_main_map\<close>: cutoff, merge and recursion\<close>

text \<open>
  Lines 130 to 139: with no cutoff configured, the \<open>for ... else\<close> loop over the children
  in descending size reads each child's rectangle from the grids and leaves at the first
  one of zero width or height.
\<close>

fun auto_cutoff_loop :: "category \<Rightarrow> grids \<Rightarrow> category list \<Rightarrow> rat result" where
  "auto_cutoff_loop self g [] = Inr 0"
| "auto_cutoff_loop self g (subcategory # rest) =
     (case g (name subcategory) of
        None \<Rightarrow> Inl KeyError
      | Some sub_grid \<Rightarrow>
          if grid_width sub_grid = 0 \<or> grid_height sub_grid = 0
          then proportion_in_supcategory self subcategory
          else auto_cutoff_loop self g rest)"

definition cutoff_of :: "visconfig \<Rightarrow> category \<Rightarrow> grids \<Rightarrow> rat result" where
  "cutoff_of configs self g =
     (case proportion_cutoff configs of
        None \<Rightarrow> auto_cutoff_loop self g (subcategories_in_descending_size self)
      | Some c \<Rightarrow> Inr c)"

text \<open>
  Lines 140 to 149: the two list comprehensions (each computes the proportion of every
  child, which may raise), the sort of the kept copies and the synthesis of the
  \<open>Other ...\<close> category. The result is \<open>not_cutoff_categories\<close> as the loop of line 165
  sees it; the second component is \<open>cutoff_categories\<close>.
\<close>

definition merge_pass ::
  "externals \<Rightarrow> category \<Rightarrow> rat \<Rightarrow> (category list \<times> category list) result" where
  "merge_pass ext self proportion_cutoff' =
     (case map_result (proportion_in_supcategory self) (subcategories self) of
        Inl e \<Rightarrow> Inl e
      | Inr proportions \<Rightarrow>
          (let not_cutoff_categories =
                 sort_key (\<lambda>c. - cat_size c)
                   (filter (\<lambda>c. rat_of_int (cat_size c) / rat_of_int (cat_size self)
                                  > proportion_cutoff') (subcategories self));
               cutoff_categories =
                 filter (\<lambda>c. rat_of_int (cat_size c) / rat_of_int (cat_size self)
                                \<le> proportion_cutoff') (subcategories self)
           in if length cutoff_categories > 0 then
                (case group_by self of
                   None \<Rightarrow> Inl AttributeError
                 | Some [] \<Rightarrow> Inl IndexError
                 | Some (key # keys) \<Rightarrow>
                     Inr (not_cutoff_categories
                            @ [Category_init (''Other '' @ plural ext key) (value_name self) []
                                 (concat (map data cutoff_categories)) False True],
                          cutoff_categories))
              else Inr (not_cutoff_categories, cutoff_categories)))"

text \<open>
  The temporary category of lines 152 to 156, with the kept and merged children added.
\<close>

definition temp_category :: "category \<Rightarrow> category list \<Rightarrow> category" where
  "temp_category self not_cutoff_categories =
     (case Category_init (name self) (value_name self) [] (data self) (is_root self) False of
        Category nm vn sz subs dat r ot gb \<Rightarrow> Category nm vn sz not_cutoff_categories dat r ot gb)"

text \<open>Lines 161 and 162: the style list of the configuration object is extended in place.\<close>

definition default_to_uniform :: "visconfig \<Rightarrow> visconfig result" where
  "default_to_uniform configs =
     (case styles configs of
        None \<Rightarrow> Inl TypeError
      | Some ss \<Rightarrow>
          if length ss \<le> 1 then Inr (configs\<lparr> styles := Some (ss @ [''uniform'']) \<rparr>)
          else Inr configs)"

text \<open>The \<open>VisConfig(...)\<close> call of lines 172 to 183: the other fields take their defaults.\<close>

definition sub_configs_of :: "externals \<Rightarrow> visconfig \<Rightarrow> grid \<Rightarrow> string \<Rightarrow> visconfig result" where
  "sub_configs_of ext configs sub_grid sub_color =
     (case styles configs of
        None \<Rightarrow> Inl TypeError
      | Some ss \<Rightarrow>
          VisConfig_post_init ext
            ((VisConfig_defaults (grid_width sub_grid) (grid_height sub_grid))
               \<lparr> font := font configs,
                 base_font_size := base_font_size configs,
                 line_width := (line_width configs * 2) div 3,
                 proportion_cutoff := proportion_cutoff configs,
                 top_color := sub_color,
                 line_color := line_color configs,
                 palette := palette configs,
                 styles := Some (tl ss),
                 label_generator := label_generator configs,
                 min_font_size := min_font_size configs \<rparr>))"

text \<open>\<open>d[k] = v\<close> on a dictionary kept in insertion order.\<close>

fun dict_set :: "('k \<times> 'v) list \<Rightarrow> 'k \<Rightarrow> 'v \<Rightarrow> ('k \<times> 'v) list" where
  "dict_set [] k v = [(k, v)]"
| "dict_set ((k', v') # d) k v = (if k' = k then (k, v) # d else (k', v') # dict_set d k v)"

text \<open>The depth of a tree: the measure of the recursion of \<open>visualize_main_map\<close>.\<close>

fun depth :: "category \<Rightarrow> nat" where
  "depth (Category nm vn sz subs dat r ot gb) = fold max (map (\<lambda>c. Suc (depth c)) subs) 0"

lemma fold_max_ge: "m \<le> fold max xs (m::nat)"
  by (induction xs arbitrary: m) (auto intro: order_trans[OF max.cobounded2])

lemma fold_max_mem: "x \<in> set xs \<Longrightarrow> x \<le> fold max xs (m::nat)"
proof (induction xs arbitrary: m)
  case Nil
  then show ?case by simp
next
  case (Cons y ys)
  show ?case
  proof (cases "x = y")
    case True
    have "max y m \<le> fold max ys (max y m)" by (rule fold_max_ge)
    then show ?thesis using True by simp
  next
    case False
    then show ?thesis using Cons by simp
  qed
qed

lemma depth_child: "c \<in> set (subcategories self) \<Longrightarrow> depth c < depth self"
proof (cases self)
  case (Category nm vn sz subs dat r ot gb)
  assume "c \<in> set (subcategories self)"
  then have "Suc (depth c) \<in> set (map (\<lambda>c. Suc (depth c)) subs)" using Category by simp
  then have "Suc (depth c) \<le> depth self" using fold_max_mem Category by simp
  then show ?thesis by simp
qed

lemma depth_no_children: "subcategories c = [] \<Longrightarrow> depth c = 0"
  by (cases c) simp

lemma merge_pass_depth:
  assumes "merge_pass ext self t = Inr (nc, cutc)" "subcategories self \<noteq> []" "c \<in> set nc"
  shows "depth c < depth self"
proof -
  obtain d where d: "d \<in> set (subcategories self)" using assms(2) by (cases "subcategories self") auto
  have pos: "0 < depth self" using depth_child[OF d] by simp
  let ?kept = "sort_key (\<lambda>c. - cat_size c)
                   (filter (\<lambda>c. rat_of_int (cat_size c) / rat_of_int (cat_size self) > t) (subcategories self))"
  have "c \<in> set ?kept \<or> (subcategories c = [])"
    using assms(1,3)
    by (auto simp: merge_pass_def Let_def Category_init_def split: sum.splits if_splits option.splits list.splits)
  then show ?thesis
  proof
    assume "c \<in> set ?kept"
    then have "c \<in> set (subcategories self)" by simp
    then show ?thesis by (rule depth_child)
  next
    assume "subcategories c = []"
    then show ?thesis using pos depth_no_children by simp
  qed
qed

lemma map_result_cong [fundef_cong]:
  "xs = ys \<Longrightarrow> (\<And>x. x \<in> set ys \<Longrightarrow> f x = g x) \<Longrightarrow> map_result f xs = map_result g ys"
  by (induction ys arbitrary: xs) (auto split: sum.splits)

text \<open>
  \<open>visualize_main_map\<close>. The model keeps what decides the layout and the colours and what
  happens to the configuration object: it returns the object as the call leaves it and
  the \<open>color_legend\<close> dictionary (\<open>None\<close> for a leaf, whose result has no such key). The
  images are not modelled; \<open>box_vis\<close> only draws, and its font-size search has
  \<open>base_font_size\<close> as its maximum. \<open>self.grids\<close> starts empty; only the entries of the
  current children, which \<open>compute_grid\<close> has just written, are ever read.
\<close>

function visualize_main_map ::
  "externals \<Rightarrow> category \<Rightarrow> visconfig \<Rightarrow> (visconfig \<times> (string \<times> string) list option) result" where
  "visualize_main_map ext self configs =
     (case top_level_color_style configs of
        Inl e \<Rightarrow> Inl e
      | Inr color_style' \<Rightarrow>
          if length (subcategories self) = 0 then Inr (configs, None)
          else
            (case compute_grid self (width configs) (height configs) (0, 0) 0 Map.empty of
               Inl e \<Rightarrow> Inl e
             | Inr g \<Rightarrow>
                (case cutoff_of configs self g of
                   Inl e \<Rightarrow> Inl e
                 | Inr proportion_cutoff' \<Rightarrow>
                    (case merge_pass ext self proportion_cutoff' of
                       Inl e \<Rightarrow> Inl e
                     | Inr (not_cutoff_categories, cutoff_categories) \<Rightarrow>
                        (case compute_grid (temp_category self not_cutoff_categories)
                                (width configs) (height configs) (0, 0) 0 Map.empty of
                           Inl e \<Rightarrow> Inl e
                         | Inr temp_grids \<Rightarrow>
                            (case default_to_uniform configs of
                               Inl e \<Rightarrow> Inl e
                             | Inr configs' \<Rightarrow>
                                (case map_result
                                        (\<lambda>(i, subcategory).
                                           case temp_grids (name subcategory) of
                                             None \<Rightarrow> Inl KeyError
                                           | Some sub_grid \<Rightarrow>
                                              (case get_color ext color_style'
                                                      (temp_category self not_cutoff_categories)
                                                      subcategory i (palette configs') of
                                                 Inl e \<Rightarrow> Inl e
                                               | Inr sub_color \<Rightarrow>
                                                  (case sub_configs_of ext configs' sub_grid sub_color of
                                                     Inl e \<Rightarrow> Inl e
                                                   | Inr sub_configs \<Rightarrow>
                                                      (case visualize_main_map ext subcategory sub_configs of
                                                         Inl e \<Rightarrow> Inl e
                                                       | Inr sub_image \<Rightarrow> Inr (name subcategory, sub_color)))))
                                        (enumerate 0 not_cutoff_categories) of
                                   Inl e \<Rightarrow> Inl e
                                 | Inr colors \<Rightarrow>
                                     Inr (configs',
                                          Some (fold (\<lambda>(k, v) d. dict_set d k v) colors [])))))))))"
  by pat_completeness auto
termination
proof (relation "measure (\<lambda>(ext, self, configs). depth self)", goal_cases)
  case 1
  then show ?case by simp
next
  case (2 ext self configs cs g t mp nc cutc tg configs' x i sub sg col sc)
  then have "sub \<in> set nc" by (auto simp: in_set_enumerate_eq)
  moreover have "subcategories self \<noteq> []" using 2 by auto
  ultimately have "depth sub < depth self" using merge_pass_depth 2 by metis
  then show ?case by simp
qed

declare visualize_main_map.simps [simp del]

text \<open>An example of the outside libraries, and an example tree grouped by a key.\<close>

definition example_externals :: externals where
  "example_externals =
     \<lparr> pastel = (\<lambda>n. replicate (nat n) ''#a1c9f4''), plural = (\<lambda>s. s @ ''s''),
       others_hex = (\<lambda>p. ''#cfcfcf''), scale_saturation = (\<lambda>c q. c) \<rparr>"

definition grouped_root :: "string \<Rightarrow> category list \<Rightarrow> category" where
  "grouped_root key cs =
     (case root_of cs of
        Category nm vn sz subs dat r ot gb \<Rightarrow> Category nm vn sz subs dat r ot (Some [key]))"

text \<open>Example configurations, as the fields are before \<open>__post_init__\<close> runs.\<close>

definition bogus_configs :: visconfig where
  "bogus_configs = (VisConfig_defaults 100 60)
      \<lparr> palette := Some [''#111111'', ''#222222''], styles := Some [''palette'', ''bogus''] \<rparr>"

definition one_style_configs :: visconfig where
  "one_style_configs = (VisConfig_defaults 100 60)
      \<lparr> palette := Some [''#111111'', ''#222222''], styles := Some [''palette''] \<rparr>"

(*PROOFS*)
section \<open>Properties\<close>

subsection \<open>Legend strips\<close>

lemma py_slice_nonneg:
  assumes "0 \<le> i" "0 < k" "i \<le> int (length xs)"
  shows "py_slice xs i (i + k) = take (nat k) (drop (nat i) xs)"
proof -
  have lo: "slice_bound (int (length xs)) i = nat i"
    using assms by (simp add: slice_bound_def min_def max_def)
  have hi: "slice_bound (int (length xs)) (i + k) = min (length xs) (nat (i + k))"
    using assms by (auto simp add: slice_bound_def min_def max_def)
  have "take (min (length xs) (nat (i + k)) - nat i) (drop (nat i) xs) = take (nat k) (drop (nat i) xs)"
    using assms by (auto simp add: min_def nat_add_distrib)
  then show ?thesis by (simp add: py_slice_def lo hi Let_def)
qed

lemma range_up_chunks:
  assumes "0 < k" "0 \<le> i" "i \<le> int (length xs)"
  shows "concat (map (\<lambda>i. py_slice xs i (i + k)) (range_up i (int (length xs)) k)) = drop (nat i) xs
     \<and> int (length (range_up i (int (length xs)) k)) = (int (length xs) - i + k - 1) div k
     \<and> (\<forall>s \<in> set (butlast (map (\<lambda>i. py_slice xs i (i + k)) (range_up i (int (length xs)) k))). int (length s) = k)
     \<and> (range_up i (int (length xs)) k \<noteq> [] \<longrightarrow>
          last (map (\<lambda>i. py_slice xs i (i + k)) (range_up i (int (length xs)) k)) \<noteq> []
          \<and> int (length (last (map (\<lambda>i. py_slice xs i (i + k)) (range_up i (int (length xs)) k)))) \<le> k)"
  using assms
proof (induction i "int (length xs)" k rule: range_up.induct)
  case (1 i k)
  let ?n = "int (length xs)"
  show ?case
  proof (cases "i < ?n")
    case False
    with 1 have "i = ?n" by simp
    moreover have "range_up i ?n k = []" using False by (simp add: range_up.simps[of i])
    ultimately show ?thesis using 1(2) by (simp add: div_pos_pos_trivial)
  next
    case True
    note lt = True
    have sl: "py_slice xs i (i + k) = take (nat k) (drop (nat i) xs)"
      using py_slice_nonneg 1 by simp
    show ?thesis
    proof (cases "i + k \<le> ?n")
      case True
      have IH: "concat (map (\<lambda>i. py_slice xs i (i + k)) (range_up (i + k) ?n k)) = drop (nat (i + k)) xs
     \<and> int (length (range_up (i + k) ?n k)) = (?n - (i + k) + k - 1) div k
     \<and> (\<forall>s \<in> set (butlast (map (\<lambda>i. py_slice xs i (i + k)) (range_up (i + k) ?n k))). int (length s) = k)
     \<and> (range_up (i + k) ?n k \<noteq> [] \<longrightarrow>
          last (map (\<lambda>i. py_slice xs i (i + k)) (range_up (i + k) ?n k)) \<noteq> []
          \<and> int (length (last (map (\<lambda>i. py_slice xs i (i + k)) (range_up (i + k) ?n k)))) \<le> k)"
        using 1 lt True by simp
      have unf: "range_up i ?n k = i # range_up (i + k) ?n k"
        using lt 1(2) by (simp add: range_up.simps[of i])
      have len: "int (length (take (nat k) (drop (nat i) xs))) = k"
        using True 1 by auto
      have c1: "take (nat k) (drop (nat i) xs) @ drop (nat (i + k)) xs = drop (nat i) xs"
      proof -
        have "drop (nat (i + k)) xs = drop (nat k) (drop (nat i) xs)"
          using 1(2,3) by (simp add: nat_add_distrib add.commute)
        then show ?thesis by (simp only: append_take_drop_id)
      qed
      have c2: "(?n - i + k - 1) div k = (?n - (i + k) + k - 1) div k + 1"
      proof -
        have "?n - i + k - 1 = (?n - (i + k) + k - 1) + 1 * k" by simp
        then show ?thesis using 1(2) by (metis div_add_self2 less_int_code(1) mult_1 order_less_irrefl add.commute div_mult_self1)
      qed
      show ?thesis
        unfolding unf using IH sl len c1 c2 1(2) by auto
    next
      case False
      then have e: "range_up (i + k) ?n k = []" by (simp add: range_up.simps[of "i + k"])
      have unf: "range_up i ?n k = [i]"
        using lt 1(2) e by (simp add: range_up.simps[of i])
      have t: "take (nat k) (drop (nat i) xs) = drop (nat i) xs"
        using False by simp
      have d: "(?n - i + k - 1) div k = 1"
      proof -
        have "?n - i + k - 1 = (?n - i - 1) + 1 * k" by simp
        moreover have "(?n - i - 1) div k = 0" using False lt by (simp add: div_pos_pos_trivial)
        ultimately show ?thesis using 1(2)
          by (metis add.commute add_0 div_mult_self1 less_irrefl)
      qed
      have ne: "drop (nat i) xs \<noteq> []" using lt 1(3) by simp
      have "nat i \<le> length xs" using 1(3,4) by (simp add: nat_le_iff)
      then have "int (length xs - nat i) = ?n - i" using 1(3) by (simp add: of_nat_diff)
      then have le: "int (length (drop (nat i) xs)) \<le> k" using False by simp
      show ?thesis unfolding unf using ne le d by (simp add: sl t)
    qed
  qed
qed


lemma ceiling_div_pos:
  assumes "0 < (k::int)"
  shows "\<lceil>rat_of_int n / rat_of_int k\<rceil> = (n + k - 1) div k"
proof -
  define q where "q = (n + k - 1) div k"
  define r where "r = (n + k - 1) mod k"
  have r: "0 \<le> r" "r < k" using assms by (simp_all add: r_def)
  have "n + k - 1 = k * q + r" by (simp add: q_def r_def)
  then have "- n = k * (- q) + (k - 1 - r)" by (simp add: algebra_simps)
  then have "(- n) div k = - q"
    using r by (intro int_div_pos_eq[where r = "k - 1 - r"]) simp_all
  then show ?thesis by (simp add: ceiling_divide_eq_div q_def)
qed

text \<open>
  Claim C9. With a positive group length \<open>k\<close>, \<open>categories_by_rowcol\<close> returns the
  names in their order, cut into \<open>ceiling (n / k)\<close> strips (the number \<open>n_row_cols\<close>
  gives): every strip but the last holds \<open>k\<close> names and the last holds between one and
  \<open>k\<close>. Twelve names with \<open>k = 5\<close> give strips of 5, 5 and 2 names.
\<close>

theorem categories_by_rowcol_chunks:
  assumes "0 < legend_rowcol_length configs"
  shows "\<exists>strips. categories_by_rowcol L configs = Inr strips
     \<and> concat strips = map fst (color_dict L)
     \<and> n_row_cols L configs = Inr (int (length strips))
     \<and> int (length strips) =
         \<lceil>rat_of_int (legend_n_categories L) / rat_of_int (legend_rowcol_length configs)\<rceil>
     \<and> (\<forall>s \<in> set (butlast strips). int (length s) = legend_rowcol_length configs)
     \<and> (strips \<noteq> [] \<longrightarrow> last strips \<noteq> []
           \<and> int (length (last strips)) \<le> legend_rowcol_length configs)"
proof -
  let ?k = "legend_rowcol_length configs"
  let ?cats = "map fst (color_dict L)"
  let ?n = "int (length ?cats)"
  let ?strips = "map (\<lambda>i. py_slice ?cats i (i + ?k)) (range_up 0 ?n ?k)"
  have n: "legend_n_categories L = ?n" by (simp add: legend_n_categories_def)
  have nrc: "n_row_cols L configs = Inr \<lceil>rat_of_int ?n / rat_of_int ?k\<rceil>"
    using assms by (simp add: n_row_cols_def truediv_def n)
  have res: "categories_by_rowcol L configs = Inr ?strips"
    using assms by (simp add: categories_by_rowcol_def nrc py_range_def n Let_def)
  have ch: "concat ?strips = drop (nat 0) ?cats
     \<and> int (length (range_up 0 ?n ?k)) = (?n - 0 + ?k - 1) div ?k
     \<and> (\<forall>s \<in> set (butlast ?strips). int (length s) = ?k)
     \<and> (range_up 0 ?n ?k \<noteq> [] \<longrightarrow> last ?strips \<noteq> [] \<and> int (length (last ?strips)) \<le> ?k)"
    using range_up_chunks[of ?k 0 ?cats] assms by simp
  have cnt: "int (length ?strips) = \<lceil>rat_of_int ?n / rat_of_int ?k\<rceil>"
    using ch ceiling_div_pos[OF assms, of ?n] by simp
  show ?thesis
    apply (rule exI[of _ ?strips])
    using res ch cnt nrc n by simp
qed

theorem categories_by_rowcol_chunks_witness:
  "0 < legend_rowcol_length (VisConfig_defaults 100 60)
   \<and> (\<exists>strips. categories_by_rowcol
         \<lparr> color_dict = map (\<lambda>c. ([c], ''#ffffff'')) ''abcdefghijkl'',
           category_boxes = [], wrapped_texts = [] \<rparr> (VisConfig_defaults 100 60) = Inr strips
        \<and> map length strips = [5, 5, 2])"
  using categories_by_rowcol_chunks[of "VisConfig_defaults 100 60"
      "\<lparr> color_dict = map (\<lambda>c. ([c], ''#ffffff'')) ''abcdefghijkl'',
           category_boxes = [], wrapped_texts = [] \<rparr>"]
  by (simp add: VisConfig_defaults_def categories_by_rowcol_def n_row_cols_def truediv_def
      legend_n_categories_def py_range_def range_up.simps py_slice_def slice_bound_def Let_def)

subsection \<open>The font-size search\<close>

lemma font_size_loop_Some:
  assumes "font_size_loop ff text mw mh cap fs = Some r"
  shows "fs \<le> r
     \<and> (\<forall>k. fs \<le> k \<and> k < r \<longrightarrow> fits ff text mw mh k \<and> (\<forall>m. cap = Some m \<longrightarrow> k \<le> m))
     \<and> (\<not> fits ff text mw mh r \<or> (\<exists>m. cap = Some m \<and> m < r))"
proof (rule font_size_loop.raw_induct[where P = "\<lambda>ff text mw mh cap fs r. fs \<le> r
     \<and> (\<forall>k. fs \<le> k \<and> k < r \<longrightarrow> fits ff text mw mh k \<and> (\<forall>m. cap = Some m \<longrightarrow> k \<le> m))
     \<and> (\<not> fits ff text mw mh r \<or> (\<exists>m. cap = Some m \<and> m < r))", OF _ assms])
  fix loop :: "font_func \<Rightarrow> string \<Rightarrow> int \<Rightarrow> int \<Rightarrow> int option \<Rightarrow> int \<Rightarrow> int option"
  fix ff tx mw mh cap fs r
  assume 1: "\<And>ff tx mw mh cap fs r. loop ff tx mw mh cap fs = Some r \<Longrightarrow> fs \<le> r
     \<and> (\<forall>k. fs \<le> k \<and> k < r \<longrightarrow> fits ff tx mw mh k \<and> (\<forall>m. cap = Some m \<longrightarrow> k \<le> m))
     \<and> (\<not> fits ff tx mw mh r \<or> (\<exists>m. cap = Some m \<and> m < r))"
    "(if text_width ff tx fs < mw \<and> text_height ff tx fs < mh
      then case cap of
           None \<Rightarrow> loop ff tx mw mh cap (fs + 1)
           | Some m \<Rightarrow> if m < fs then Some fs else loop ff tx mw mh cap (fs + 1)
      else Some fs) = Some r"
  have step: "fs \<le> r
     \<and> (\<forall>k. fs \<le> k \<and> k < r \<longrightarrow> fits ff tx mw mh k \<and> (\<forall>m. cap = Some m \<longrightarrow> k \<le> m))
     \<and> (\<not> fits ff tx mw mh r \<or> (\<exists>m. cap = Some m \<and> m < r))"
    if f: "fits ff tx mw mh fs" and nb: "\<forall>m. cap = Some m \<longrightarrow> fs \<le> m"
      and rec: "loop ff tx mw mh cap (fs + 1) = Some r"
  proof -
    note IH = 1(1)[OF rec]
    have "fits ff tx mw mh k \<and> (\<forall>m. cap = Some m \<longrightarrow> k \<le> m)" if k: "fs \<le> k" "k < r" for k
    proof (cases "k = fs")
      case True
      then show ?thesis using f nb by simp
    next
      case False
      then have "fs + 1 \<le> k" using k by simp
      then show ?thesis using IH k by blast
    qed
    moreover have "fs \<le> r" using IH by simp
    ultimately show ?thesis using IH by blast
  qed
  show "fs \<le> r
     \<and> (\<forall>k. fs \<le> k \<and> k < r \<longrightarrow> fits ff tx mw mh k \<and> (\<forall>m. cap = Some m \<longrightarrow> k \<le> m))
     \<and> (\<not> fits ff tx mw mh r \<or> (\<exists>m. cap = Some m \<and> m < r))"
  proof (cases "fits ff tx mw mh fs")
    case False
    then have "\<not> (text_width ff tx fs < mw \<and> text_height ff tx fs < mh)"
      by (simp add: fits_def)
    with 1(2) have "r = fs" by simp
    with False show ?thesis by auto
  next
    case True
    then have c: "text_width ff tx fs < mw \<and> text_height ff tx fs < mh"
      by (simp add: fits_def)
    show ?thesis
    proof (cases cap)
      case None
      with 1(2) c have "loop ff tx mw mh cap (fs + 1) = Some r" by simp
      then show ?thesis using step True None by simp
    next
      case (Some m)
      show ?thesis
      proof (cases "m < fs")
        case True
        with 1(2) c Some have "r = fs" by simp
        then show ?thesis using True Some by auto
      next
        case False
        with 1(2) c Some have "loop ff tx mw mh cap (fs + 1) = Some r" by simp
        then show ?thesis using step \<open>fits ff tx mw mh fs\<close> False Some by simp
      qed
    qed
  qed
qed

lemma font_size_loop_capped_returns:
  "\<exists>r. font_size_loop ff text mw mh (Some m) fs = Some r"
proof (induction "nat (m + 1 - fs)" arbitrary: fs)
  case 0
  then have "m < fs" by simp
  then show ?case by (subst font_size_loop.simps) simp
next
  case (Suc n)
  then have "n = nat (m + 1 - (fs + 1))" by simp
  from Suc(1)[OF this] obtain r where "font_size_loop ff text mw mh (Some m) (fs + 1) = Some r"
    by blast
  then show ?case by (subst font_size_loop.simps) simp
qed

lemma font_size_loop_failing_returns:
  assumes "\<not> fits ff text mw mh k" "fs \<le> k"
  shows "\<exists>r. font_size_loop ff text mw mh cap fs = Some r"
  using assms(2)
proof (induction "nat (k - fs)" arbitrary: fs)
  case 0
  then have "fs = k" by simp
  then show ?case using assms(1) by (subst font_size_loop.simps) (auto simp add: fits_def)
next
  case (Suc n)
  then have "n = nat (k - (fs + 1))" "fs + 1 \<le> k" by simp_all
  from Suc(1)[OF this] obtain r where "font_size_loop ff text mw mh cap (fs + 1) = Some r"
    by blast
  then show ?case by (subst font_size_loop.simps) (auto split: option.splits)
qed

lemma font_size_loop_diverges:
  assumes "\<forall>k\<ge>fs. fits ff text mw mh k"
  shows "font_size_loop ff text mw mh None fs = None"
proof (cases "font_size_loop ff text mw mh None fs")
  case None
  then show ?thesis .
next
  case (Some r)
  from font_size_loop_Some[OF Some] assms show ?thesis by auto
qed

text \<open>
  Claim C5. With a maximum font size \<open>m\<close> configured (and not negative), the search
  returns, and what it returns is fixed by the size \<open>s\<close> it finds: \<open>s\<close> is the largest
  size up to \<open>m\<close> such that every size from 1 to \<open>s\<close> keeps the measured width under
  \<open>max_width\<close> and the measured height under \<open>max_height\<close> (so \<open>s = m\<close>, or size \<open>s + 1\<close>
  does not fit). The result is \<open>s\<close> when \<open>s\<close> reaches the minimum font size and 0
  otherwise, never a value strictly between 0 and the minimum.
\<close>

theorem largest_fitting_font_size_spec:
  assumes "0 \<le> m"
  shows "\<exists>s. 0 \<le> s \<and> s \<le> m
     \<and> (\<forall>k. 1 \<le> k \<and> k \<le> s \<longrightarrow> fits font_func text max_width max_height k)
     \<and> (s = m \<or> \<not> fits font_func text max_width max_height (s + 1))
     \<and> largest_fitting_font_size text font_func max_width max_height (Some m) min_fs
         = Some (if min_fs \<le> s then s else 0)
     \<and> \<not> (0 < (if min_fs \<le> s then s else 0) \<and> (if min_fs \<le> s then s else 0) < min_fs)"
proof -
  obtain r where r: "font_size_loop font_func text max_width max_height (Some m) 1 = Some r"
    using font_size_loop_capped_returns by blast
  note c = font_size_loop_Some[OF r]
  have r1: "1 \<le> r" using c by simp
  have fit: "\<And>k. 1 \<le> k \<Longrightarrow> k \<le> r - 1 \<Longrightarrow> fits font_func text max_width max_height k \<and> k \<le> m"
    using c by auto
  have le: "r - 1 \<le> m"
  proof (cases "r = 1")
    case True
    then show ?thesis using assms by simp
  next
    case False
    then have "1 \<le> r - 1" using r1 by simp
    then show ?thesis using fit[of "r - 1"] by simp
  qed
  have stop: "r - 1 = m \<or> \<not> fits font_func text max_width max_height (r - 1 + 1)"
    using c le by auto
  have res: "largest_fitting_font_size text font_func max_width max_height (Some m) min_fs
         = Some (if min_fs \<le> r - 1 then r - 1 else 0)"
    by (simp add: largest_fitting_font_size_def r)
  show ?thesis
    apply (rule exI[of _ "r - 1"])
    using r1 le fit stop res by simp
qed

theorem largest_fitting_font_size_spec_witness:
  "(0::int) \<le> 20 \<and>
   largest_fitting_font_size ''abc'' (\<lambda>s t. (s * int (length t), s)) 40 100 (Some 20) 15 = Some 0
   \<and> largest_fitting_font_size ''abc'' (\<lambda>s t. (s * int (length t), s)) 400 100 (Some 20) 15 = Some 20"
proof -
  let ?ff = "\<lambda>s t. (s * int (length t), s)"
  have h: "(0::int) \<le> 20" by simp
  from largest_fitting_font_size_spec[OF h, of ?ff "''abc''" 40 100 15]
  obtain s where s: "0 \<le> s" "s \<le> 20" "\<forall>k. 1 \<le> k \<and> k \<le> s \<longrightarrow> fits ?ff ''abc'' 40 100 k"
    "s = 20 \<or> \<not> fits ?ff ''abc'' 40 100 (s + 1)"
    "largest_fitting_font_size ''abc'' ?ff 40 100 (Some 20) 15 = Some (if 15 \<le> s then s else 0)"
    by blast
  have "s < 15"
  proof (rule ccontr)
    assume "\<not> s < 15"
    then have "fits ?ff ''abc'' 40 100 15" using s(3) by simp
    then show False by (simp add: fits_def text_width_def text_height_def)
  qed
  then have a: "largest_fitting_font_size ''abc'' ?ff 40 100 (Some 20) 15 = Some 0"
    using s(5) by simp
  from largest_fitting_font_size_spec[OF h, of ?ff "''abc''" 400 100 15]
  obtain t where t: "0 \<le> t" "t \<le> 20"
    "t = 20 \<or> \<not> fits ?ff ''abc'' 400 100 (t + 1)"
    "largest_fitting_font_size ''abc'' ?ff 400 100 (Some 20) 15 = Some (if 15 \<le> t then t else 0)"
    by blast
  have "t = 20" using t(1,2,3) by (auto simp: fits_def text_width_def text_height_def)
  then have b: "largest_fitting_font_size ''abc'' ?ff 400 100 (Some 20) 15 = Some 20"
    using t(4) by simp
  show ?thesis using a b by simp
qed

text \<open>
  Claim C6. For the same text, measurement, maximum and minimum font size, a box that is
  strictly larger in both dimensions never gets a smaller font size: whenever both
  searches return, the larger box's size is at least the smaller box's, and with a
  maximum font size configured both searches do return.
\<close>

theorem largest_fitting_font_size_mono:
  assumes "w1 < w2" "h1 < h2"
  shows "(\<forall>a b. largest_fitting_font_size text font_func w1 h1 cap min_fs = Some a
            \<and> largest_fitting_font_size text font_func w2 h2 cap min_fs = Some b \<longrightarrow> a \<le> b)
     \<and> (cap \<noteq> None \<longrightarrow>
          (\<exists>a b. largest_fitting_font_size text font_func w1 h1 cap min_fs = Some a
            \<and> largest_fitting_font_size text font_func w2 h2 cap min_fs = Some b \<and> a \<le> b))"
proof -
  have mono: "a \<le> b"
    if a: "largest_fitting_font_size text font_func w1 h1 cap min_fs = Some a"
    and b: "largest_fitting_font_size text font_func w2 h2 cap min_fs = Some b" for a b
  proof -
    from a obtain r1 where r1: "font_size_loop font_func text w1 h1 cap 1 = Some r1"
      and a': "a = (if min_fs \<le> r1 - 1 then r1 - 1 else 0)"
      by (auto simp: largest_fitting_font_size_def split: option.splits if_splits)
    from b obtain r2 where r2: "font_size_loop font_func text w2 h2 cap 1 = Some r2"
      and b': "b = (if min_fs \<le> r2 - 1 then r2 - 1 else 0)"
      by (auto simp: largest_fitting_font_size_def split: option.splits if_splits)
    note c1 = font_size_loop_Some[OF r1]
    note c2 = font_size_loop_Some[OF r2]
    have "r1 \<le> r2"
    proof (rule ccontr)
      assume "\<not> r1 \<le> r2"
      then have lt: "1 \<le> r2" "r2 < r1" using c2 by simp_all
      then have f1: "fits font_func text w1 h1 r2" and capm: "\<forall>m. cap = Some m \<longrightarrow> r2 \<le> m"
        using c1 by blast+
      from f1 have "fits font_func text w2 h2 r2" using assms by (auto simp: fits_def)
      with c2 capm show False by auto
    qed
    moreover have "1 \<le> r1" using c1 by simp
    ultimately show ?thesis by (auto simp: a' b')
  qed
  have ex: "\<exists>a b. largest_fitting_font_size text font_func w1 h1 cap min_fs = Some a
            \<and> largest_fitting_font_size text font_func w2 h2 cap min_fs = Some b \<and> a \<le> b"
    if "cap \<noteq> None"
  proof -
    from that obtain m where m: "cap = Some m" by auto
    obtain r1 where r1: "font_size_loop font_func text w1 h1 cap 1 = Some r1"
      using font_size_loop_capped_returns m by blast
    obtain r2 where r2: "font_size_loop font_func text w2 h2 cap 1 = Some r2"
      using font_size_loop_capped_returns m by blast
    have "\<exists>a. largest_fitting_font_size text font_func w1 h1 cap min_fs = Some a"
      by (simp add: largest_fitting_font_size_def r1)
    moreover have "\<exists>b. largest_fitting_font_size text font_func w2 h2 cap min_fs = Some b"
      by (simp add: largest_fitting_font_size_def r2)
    ultimately show ?thesis using mono by blast
  qed
  show ?thesis using mono ex by blast
qed

theorem largest_fitting_font_size_mono_witness:
  "(40::int) < 400 \<and> (100::int) < 200
   \<and> (\<exists>a b. largest_fitting_font_size ''abc'' (\<lambda>s t. (s * int (length t), s)) 40 100 (Some 20) 15 = Some a
         \<and> largest_fitting_font_size ''abc'' (\<lambda>s t. (s * int (length t), s)) 400 200 (Some 20) 15 = Some b
         \<and> a \<le> b)"
proof -
  have h: "(40::int) < 400" "(100::int) < 200" by simp_all
  show ?thesis
    using largest_fitting_font_size_mono[OF h, of "''abc''" "\<lambda>s t. (s * int (length t), s)" "Some 20" 15]
    by simp
qed

subsection \<open>Rectangles and columns\<close>



















subsection \<open>Growing a group, splitting a rectangle\<close>






lemma seg_hd: "i \<le> j \<Longrightarrow> j < length xs \<Longrightarrow> hd (seg xs i j) = xs ! i"
  by (simp add: seg_def hd_drop_conv_nth)










lemma tiling_nonempty_bounds:
  assumes "tiling R rs" "rs \<noteq> []"
  shows "0 \<le> int (length rs) - 1"
  using assms(2) by (cases rs) simp_all



subsection \<open>\<open>compute_grid\<close> tiles the rectangle\<close>




















subsection \<open>Denominators\<close>






end
